theory Spec2Isabelle
  imports Complex_Main "HOL-Library.Log_Nat"
begin

section \<open>RICE calculator: values and exceptions\<close>

text \<open>
  The program is \<^verbatim>\<open>rice_calculator.py\<close>. A Python number is embedded as the rational
  it denotes: an \<^verbatim>\<open>int\<close> exactly, a \<^verbatim>\<open>float\<close> as the value of the double, so that
  \<^verbatim>\<open>2 == 2.0\<close> holds in Python and in the model. Arithmetic on exact numbers is exact;
  arithmetic on floats rounds every result to the nearest double (\<open>fl\<close> below). A raised
  exception is the \<open>Inl\<close> of a sum.
\<close>

datatype exn =
    ZeroDivisionError
  | KeyError
  | CredentialsError
  | SpreadsheetNotFound
  | WorksheetNotFound
  | APIError



subsection \<open>Doubles\<close>

text \<open>The nearest integer, a tie going to the even one.\<close>

definition round_half_even :: "rat \<Rightarrow> int" where
  "round_half_even x =
     (let f = \<lfloor>x\<rfloor>; d = x - of_int f
      in if d < 1 / 2 then f
         else if 1 / 2 < d then f + 1
         else if even f then f else f + 1)"

text \<open>The binary exponent of a positive number: \<open>2 powi ilog2 x \<le> x < 2 powi (ilog2 x + 1)\<close>.\<close>

definition ilog2 :: "rat \<Rightarrow> int" where
  "ilog2 x = (if 1 \<le> x then bitlen \<lfloor>x\<rfloor> - 1 else - bitlen (\<lceil>1 / x\<rceil> - 1))"

text \<open>
  The double nearest to \<open>x\<close> (IEEE 754 binary64, round to nearest, ties to even): \<open>x\<close>
  is scaled to 53 significant bits and rounded to an integer. The exponent range of
  doubles is not modelled; the program's numbers are far inside it.
\<close>

definition fl :: "rat \<Rightarrow> rat" where
  "fl x =
     (if x = 0 then 0
      else let e = ilog2 \<bar>x\<bar> - 52
           in of_int (round_half_even (x / 2 powi e)) * 2 powi e)"

text \<open>Python's \<^verbatim>\<open>a * b\<close> and \<^verbatim>\<open>a / b\<close> when an operand is a float.\<close>

definition fmul :: "rat \<Rightarrow> rat \<Rightarrow> rat" where
  "fmul a b = fl (a * b)"

definition fdiv :: "rat \<Rightarrow> rat \<Rightarrow> exn + rat" where
  "fdiv a b = (if b = 0 then Inl ZeroDivisionError else Inr (fl (a / b)))"

text \<open>
  \<^verbatim>\<open>calculate_rice_score\<close> as Python evaluates it on floats, which is how the add
  action calls it: the two products and the quotient are each rounded to a double.
\<close>

definition calculate_rice_score_float :: "rat \<Rightarrow> rat \<Rightarrow> rat \<Rightarrow> rat \<Rightarrow> exn + rat" where
  "calculate_rice_score_float reach impact confidence effort =
     (if effort = 0 then Inr 0
      else fdiv (fmul (fmul reach impact) confidence) effort)"

text \<open>
  The nearest multiple of \<open>10 ^ -ndigits\<close>, a tie going to the even multiple; and
  Python's \<^verbatim>\<open>round(x, ndigits)\<close> of a float \<open>x\<close>: that multiple for the exact
  value of \<open>x\<close>, as the nearest double.
\<close>

definition round_decimal :: "rat \<Rightarrow> nat \<Rightarrow> rat" where
  "round_decimal x ndigits = of_int (round_half_even (x * 10 ^ ndigits)) / 10 ^ ndigits"

definition py_round :: "rat \<Rightarrow> nat \<Rightarrow> rat" where
  "py_round x ndigits = fl (round_decimal x ndigits)"

section \<open>The spreadsheet store and the user interface\<close>

text \<open>
  The spreadsheet service is outside the program. It is modelled by what the program
  relies on: a document is a map from worksheet titles to the rows of the worksheet, a
  row is a list of cells, and a cell keeps the value written to it. Every request to the
  service may raise; \<open>faults\<close> scripts that: the head of the list says whether the next
  request raises, and an empty list means that no further request does. \<open>calls\<close> logs the
  requests in the order the program makes them. \<open>shown\<close> is what the program has shown to
  the user, \<open>session_state\<close> is Streamlit's per-session dictionary.
\<close>

datatype cell = Str string | Num rat

type_synonym row = "cell list"

text \<open>A Python \<^verbatim>\<open>dict\<close>: project records are dictionaries keyed by column name.\<close>

type_synonym pydict = "cell \<rightharpoonup> cell"

datatype client = Client

datatype spreadsheet = Spreadsheet

text \<open>A worksheet handle refers to its worksheet by title.\<close>

type_synonym worksheet = string

datatype call =
    OpenByUrl string
  | OpenByName string
  | GetWorksheet string
  | AddWorksheet string
  | AppendRow string row
  | ClearSheet string
  | GetAllRecords string

datatype notice =
    ErrorAccessing exn
  | ErrorSaving exn
  | WarnNotConfigured
  | Connected
  | Added string rat
  | FailedToSave
  | FailedToClear
  | EnterProjectName

record world =
  secrets_ok :: bool
  spreadsheet_url :: string
  doc_found :: bool
  sheets :: "string \<rightharpoonup> row list"
  faults :: "bool list"
  calls :: "call list"
  session_state :: "string \<rightharpoonup> pydict list"
  shown :: "notice list"

text \<open>Statements run in sequence until one raises; \<open>try_except\<close> is \<^verbatim>\<open>try: ... except:\<close>.\<close>

type_synonym 'a io = "world \<Rightarrow> (exn + 'a) \<times> world"

definition return :: "'a \<Rightarrow> 'a io" where
  "return x w = (Inr x, w)"

definition raise :: "exn \<Rightarrow> 'a io" where
  "raise e w = (Inl e, w)"

definition seq :: "'a io \<Rightarrow> ('a \<Rightarrow> 'b io) \<Rightarrow> 'b io" where
  "seq m f w = (case m w of (Inl e, w') \<Rightarrow> (Inl e, w') | (Inr x, w') \<Rightarrow> f x w')"

definition try_except :: "'a io \<Rightarrow> (exn \<Rightarrow> 'a io) \<Rightarrow> 'a io" where
  "try_except m h w = (case m w of (Inl e, w') \<Rightarrow> h e w' | (Inr x, w') \<Rightarrow> (Inr x, w'))"

definition lift :: "exn + 'a \<Rightarrow> 'a io" where
  "lift r w = (r, w)"

definition st_show :: "notice \<Rightarrow> unit io" where
  "st_show n w = (Inr (), w\<lparr>shown := shown w @ [n]\<rparr>)"

definition set_session_state :: "string \<Rightarrow> pydict list \<Rightarrow> unit io" where
  "set_session_state k v w = (Inr (), w\<lparr>session_state := (session_state w)(k \<mapsto> v)\<rparr>)"

text \<open>One request to the service: logged, and failing when the script says so.\<close>

definition tick :: "call \<Rightarrow> world \<Rightarrow> world" where
  "tick c w = w\<lparr>faults := tl (faults w), calls := calls w @ [c]\<rparr>"

definition request :: "call \<Rightarrow> unit io" where
  "request c w =
     (case faults w of
        [] \<Rightarrow> (Inr (), tick c w)
      | b # _ \<Rightarrow> if b then (Inl APIError, tick c w) else (Inr (), tick c w))"

definition open_document :: "spreadsheet io" where
  "open_document w = (if doc_found w then (Inr Spreadsheet, w) else (Inl SpreadsheetNotFound, w))"

definition open_by_url :: "client \<Rightarrow> string \<Rightarrow> spreadsheet io" where
  "open_by_url gc url = seq (request (OpenByUrl url)) (\<lambda>_. open_document)"

definition open_by_name :: "client \<Rightarrow> string \<Rightarrow> spreadsheet io" where
  "open_by_name gc title = seq (request (OpenByName title)) (\<lambda>_. open_document)"

definition sh_worksheet :: "spreadsheet \<Rightarrow> string \<Rightarrow> worksheet io" where
  "sh_worksheet sh title =
     seq (request (GetWorksheet title)) (\<lambda>_ w.
       case sheets w title of
         None \<Rightarrow> (Inl WorksheetNotFound, w)
       | Some _ \<Rightarrow> (Inr title, w))"

definition add_worksheet :: "spreadsheet \<Rightarrow> string \<Rightarrow> worksheet io" where
  "add_worksheet sh title =
     seq (request (AddWorksheet title)) (\<lambda>_ w.
       case sheets w title of
         None \<Rightarrow> (Inr title, w\<lparr>sheets := (sheets w)(title \<mapsto> [])\<rparr>)
       | Some _ \<Rightarrow> (Inl APIError, w))"

definition append_row :: "worksheet \<Rightarrow> row \<Rightarrow> unit io" where
  "append_row ws vals =
     seq (request (AppendRow ws vals)) (\<lambda>_ w.
       case sheets w ws of
         None \<Rightarrow> (Inl APIError, w)
       | Some rows \<Rightarrow> (Inr (), w\<lparr>sheets := (sheets w)(ws \<mapsto> rows @ [vals])\<rparr>))"

definition clear :: "worksheet \<Rightarrow> unit io" where
  "clear ws =
     seq (request (ClearSheet ws)) (\<lambda>_ w.
       case sheets w ws of
         None \<Rightarrow> (Inl APIError, w)
       | Some _ \<Rightarrow> (Inr (), w\<lparr>sheets := (sheets w)(ws \<mapsto> [])\<rparr>))"

text \<open>
  \<^verbatim>\<open>get_all_records\<close>: the first row holds the keys, every further row is one
  dictionary; a cell missing at the end of a row reads as the empty string.
\<close>

definition records_of :: "row list \<Rightarrow> pydict list" where
  "records_of rows =
     (case rows of
        [] \<Rightarrow> []
      | keys # rs \<Rightarrow>
          map (\<lambda>r. Map.empty(keys [\<mapsto>] r @ replicate (length keys - length r) (Str []))) rs)"

definition get_all_records :: "worksheet \<Rightarrow> pydict list io" where
  "get_all_records ws =
     seq (request (GetAllRecords ws)) (\<lambda>_ w.
       case sheets w ws of
         None \<Rightarrow> (Inl APIError, w)
       | Some rows \<Rightarrow> (Inr (records_of rows), w))"

section \<open>The program\<close>

text \<open>
  \<^verbatim>\<open>init_gsheets\<close>: the client when the secrets hold usable credentials, \<^verbatim>\<open>None\<close>
  on any exception.
\<close>

definition from_service_account_info :: "client io" where
  "from_service_account_info w =
     (if secrets_ok w then (Inr Client, w) else (Inl CredentialsError, w))"

definition init_gsheets :: "client option io" where
  "init_gsheets =
     try_except
       (seq from_service_account_info (\<lambda>gc. return (Some gc)))
       (\<lambda>e. return None)"

text \<open>The header row both \<^verbatim>\<open>get_worksheet\<close> and \<^verbatim>\<open>save_user_projects\<close> write.\<close>

definition HEADER :: row where
  "HEADER = [Str ''Project'', Str ''Reach (%)'', Str ''Impact'', Str ''Confidence (%)'',
             Str ''Effort (months)'', Str ''RICE Score'']"

definition get_worksheet :: "client option \<Rightarrow> string \<Rightarrow> worksheet option io" where
  "get_worksheet gc username =
     (case gc of
        None \<Rightarrow> return None
      | Some c \<Rightarrow>
          try_except
            (seq (\<lambda>w. (Inr (spreadsheet_url w), w)) (\<lambda>url.
             seq (if url \<noteq> [] then open_by_url c url
                  else open_by_name c ''RICE Calculator Data'') (\<lambda>sh.
             seq (try_except (sh_worksheet sh username)
                    (\<lambda>e. if e = WorksheetNotFound
                         then seq (add_worksheet sh username) (\<lambda>worksheet.
                              seq (append_row worksheet HEADER) (\<lambda>_.
                              return worksheet))
                         else raise e)) (\<lambda>worksheet.
             return (Some worksheet)))))
            (\<lambda>e. seq (st_show (ErrorAccessing e)) (\<lambda>_. return None)))"

definition load_user_projects :: "string \<Rightarrow> pydict list io" where
  "load_user_projects username =
     seq init_gsheets (\<lambda>gc.
     seq (get_worksheet gc username) (\<lambda>worksheet.
       case worksheet of
         None \<Rightarrow> return []
       | Some ws \<Rightarrow>
           try_except
             (seq (get_all_records ws) (\<lambda>records. return records))
             (\<lambda>e. return [])))"

text \<open>\<^verbatim>\<open>d[k]\<close> raises \<^verbatim>\<open>KeyError\<close> on a missing key.\<close>

definition getitem :: "pydict \<Rightarrow> cell \<Rightarrow> exn + cell" where
  "getitem d k = (case d k of None \<Rightarrow> Inl KeyError | Some v \<Rightarrow> Inr v)"

fun getitems :: "pydict \<Rightarrow> cell list \<Rightarrow> exn + row" where
  "getitems d [] = Inr []"
| "getitems d (k # ks) =
     (case getitem d k of
        Inl e \<Rightarrow> Inl e
      | Inr v \<Rightarrow> (case getitems d ks of Inl e \<Rightarrow> Inl e | Inr vs \<Rightarrow> Inr (v # vs)))"

text \<open>The list a project is written as: its six fields, looked up left to right.\<close>

definition project_row :: "pydict \<Rightarrow> exn + row" where
  "project_row project =
     getitems project
       [Str ''Project'', Str ''Reach (%)'', Str ''Impact'', Str ''Confidence (%)'',
        Str ''Effort (months)'', Str ''RICE Score'']"

fun append_projects :: "worksheet \<Rightarrow> pydict list \<Rightarrow> unit io" where
  "append_projects ws [] w = (Inr (), w)"
| "append_projects ws (project # projects) w =
     (case project_row project of
        Inl e \<Rightarrow> (Inl e, w)
      | Inr vals \<Rightarrow>
          (case append_row ws vals w of
             (Inl e, w') \<Rightarrow> (Inl e, w')
           | (Inr _, w') \<Rightarrow> append_projects ws projects w'))"

text \<open>The body of the \<^verbatim>\<open>try\<close> of \<^verbatim>\<open>save_user_projects\<close>.\<close>

definition write_projects :: "worksheet \<Rightarrow> pydict list \<Rightarrow> bool io" where
  "write_projects ws projects =
     seq (clear ws) (\<lambda>_.
     seq (append_row ws HEADER) (\<lambda>_.
     seq (append_projects ws projects) (\<lambda>_.
     return True)))"

definition save_user_projects :: "string \<Rightarrow> pydict list \<Rightarrow> bool io" where
  "save_user_projects username projects =
     seq init_gsheets (\<lambda>gc.
     seq (get_worksheet gc username) (\<lambda>worksheet.
       case worksheet of
         None \<Rightarrow> seq (st_show WarnNotConfigured) (\<lambda>_. return True)
       | Some ws \<Rightarrow>
           try_except
             (write_projects ws projects)
             (\<lambda>e. seq (st_show (ErrorSaving e)) (\<lambda>_. return False))))"

text \<open>
  The record the add action builds (the dictionary literal \<^verbatim>\<open>new_project\<close> of
  \<^verbatim>\<open>main\<close>): the inputs as entered, and the score rounded to 2 decimals.
\<close>

definition new_project :: "string \<Rightarrow> int \<Rightarrow> rat \<Rightarrow> int \<Rightarrow> rat \<Rightarrow> rat \<Rightarrow> pydict" where
  "new_project project_name reach impact confidence effort rice_score =
     [Str ''Project'' \<mapsto> Str project_name,
      Str ''Reach (%)'' \<mapsto> Num (of_int reach),
      Str ''Impact'' \<mapsto> Num impact,
      Str ''Confidence (%)'' \<mapsto> Num (of_int confidence),
      Str ''Effort (months)'' \<mapsto> Num effort,
      Str ''RICE Score'' \<mapsto> Num (py_round rice_score 2)]"

definition projects_key :: "string \<Rightarrow> string" where
  "projects_key selected_user = ''projects_'' @ selected_user"

text \<open>
  The handler of the button "Add Project". Its result says whether it ended in
  \<^verbatim>\<open>st.rerun()\<close>, which abandons the run of the script and starts a new one.
\<close>

definition add_project :: "string \<Rightarrow> string \<Rightarrow> int \<Rightarrow> rat \<Rightarrow> int \<Rightarrow> rat \<Rightarrow> bool io" where
  "add_project selected_user project_name reach impact confidence effort =
     (if project_name \<noteq> [] then
        seq (lift (fdiv (of_int confidence) 100)) (\<lambda>confidence_decimal.
        seq (lift (calculate_rice_score_float (of_int reach) impact confidence_decimal effort))
          (\<lambda>rice_score.
        seq (load_user_projects selected_user) (\<lambda>loaded.
        let user_projects =
              loaded @ [new_project project_name reach impact confidence effort rice_score]
        in seq (save_user_projects selected_user user_projects) (\<lambda>saved.
             if saved then
               seq (st_show (Added project_name rice_score)) (\<lambda>_.
               seq (set_session_state (projects_key selected_user) user_projects) (\<lambda>_.
               return True))
             else seq (st_show FailedToSave) (\<lambda>_. return False)))))
      else seq (st_show EnterProjectName) (\<lambda>_. return False))"

text \<open>The handler of the button "Clear All Projects".\<close>

definition clear_all :: "string \<Rightarrow> bool io" where
  "clear_all selected_user =
     seq (save_user_projects selected_user []) (\<lambda>saved.
       if saved then
         seq (set_session_state (projects_key selected_user) []) (\<lambda>_. return True)
       else seq (st_show FailedToClear) (\<lambda>_. return False))"

text \<open>
  One run of the script \<^verbatim>\<open>main\<close> for the selected user and the button pressed, if
  any. The widgets clamp what the add button can submit (\<open>valid_inputs\<close>). The result is
  \<open>Rerun\<close> after \<^verbatim>\<open>st.rerun()\<close>, else the projects handed to the tables and charts;
  the rendering itself is not modelled. The clear button exists only when there are
  projects to show.
\<close>

datatype event = NoClick | AddClicked string int rat int rat | ClearClicked

datatype outcome = Rerun | Shown "pydict list"

definition valid_inputs :: "string \<Rightarrow> int \<Rightarrow> rat \<Rightarrow> int \<Rightarrow> rat \<Rightarrow> bool" where
  "valid_inputs project_name reach impact confidence effort =
     (project_name \<noteq> [] \<and> 0 \<le> reach \<and> reach \<le> 100 \<and>
      impact \<in> {1 / 4, 1 / 2, 1, 2, 3} \<and>
      0 \<le> confidence \<and> confidence \<le> 100 \<and>
      1 / 10 \<le> effort \<and> effort \<le> 100)"

definition main :: "string \<Rightarrow> event \<Rightarrow> outcome io" where
  "main selected_user ev =
     seq init_gsheets (\<lambda>gc.
     seq (st_show (if gc \<noteq> None then Connected else WarnNotConfigured)) (\<lambda>_.
     seq (case ev of
            AddClicked project_name reach impact confidence effort \<Rightarrow>
              add_project selected_user project_name reach impact confidence effort
          | _ \<Rightarrow> return False) (\<lambda>rerun.
     if rerun then return Rerun
     else
       seq (load_user_projects selected_user) (\<lambda>user_projects.
       seq (set_session_state (projects_key selected_user) user_projects) (\<lambda>_.
       if user_projects \<noteq> [] \<and> ev = ClearClicked then
         seq (clear_all selected_user) (\<lambda>rerun.
         return (if rerun then Rerun else Shown user_projects))
       else return (Shown user_projects))))))"

text \<open>One interaction of the session: the run the click starts, and the rerun it asks for.\<close>

definition interaction :: "string \<Rightarrow> event \<Rightarrow> outcome io" where
  "interaction selected_user ev =
     seq (main selected_user ev) (\<lambda>r.
       case r of
         Rerun \<Rightarrow> main selected_user NoClick
       | Shown ps \<Rightarrow> return (Shown ps))"

text \<open>A restart of the process loses the session; the secrets and the document stay.\<close>

definition restart :: "world \<Rightarrow> world" where
  "restart w = w\<lparr>session_state := Map.empty, shown := []\<rparr>"

section \<open>Conditions on the store\<close>

text \<open>
  The store is reachable: credentials present, the document opens, no request raises.
\<close>

definition reachable :: "world \<Rightarrow> bool" where
  "reachable w = (secrets_ok w \<and> doc_found w \<and> True \<notin> set (faults w))"

text \<open>A project record: a dictionary with exactly the six columns as keys.\<close>

definition is_project :: "pydict \<Rightarrow> bool" where
  "is_project p = (dom p = set HEADER)"

text \<open>The cells a project record is written as, when it has the six columns.\<close>

definition row_of :: "pydict \<Rightarrow> row" where
  "row_of p = map (\<lambda>k. case p k of None \<Rightarrow> Str [] | Some v \<Rightarrow> v) HEADER"

text \<open>The request that opens the document, by URL when the secrets give one.\<close>

definition open_call :: "world \<Rightarrow> call" where
  "open_call w =
     (if spreadsheet_url w \<noteq> [] then OpenByUrl (spreadsheet_url w)
      else OpenByName ''RICE Calculator Data'')"

text \<open>
  The first two statements of \<^verbatim>\<open>load_user_projects\<close> and of
  \<^verbatim>\<open>save_user_projects\<close>: the worksheet handle of the user, or \<^verbatim>\<open>None\<close>.
\<close>

definition user_worksheet :: "string \<Rightarrow> worksheet option io" where
  "user_worksheet username = seq init_gsheets (\<lambda>gc. get_worksheet gc username)"

text \<open>The next request to the service raises.\<close>

definition next_fails :: "world \<Rightarrow> bool" where
  "next_fails w = (case faults w of [] \<Rightarrow> False | b # _ \<Rightarrow> b)"

text \<open>
  A user table as the program leaves it: absent, empty, or the header row followed by
  the project rows.
\<close>

definition table_ok :: "row list option \<Rightarrow> bool" where
  "table_ok t = (case t of None \<Rightarrow> True | Some [] \<Rightarrow> True | Some (h # rs) \<Rightarrow> h = HEADER)"



text \<open>
  The score the add action computes for its inputs: \<^verbatim>\<open>confidence / 100\<close>, then
  \<^verbatim>\<open>(reach * impact * confidence_decimal) / effort\<close>, on doubles.
\<close>

definition float_score :: "int \<Rightarrow> rat \<Rightarrow> int \<Rightarrow> rat \<Rightarrow> rat" where
  "float_score reach impact confidence effort =
     fl (fl (fl (of_int reach * impact) * fl (of_int confidence / 100)) / effort)"

text \<open>A world for examples: reachable, with an empty document.\<close>

definition demo_world :: world where
  "demo_world =
     \<lparr>secrets_ok = True, spreadsheet_url = [], doc_found = True, sheets = Map.empty,
      faults = [], calls = [], session_state = Map.empty, shown = []\<rparr>"

text \<open>The same with no credentials: the store is unavailable.\<close>

definition offline_world :: world where
  "offline_world = demo_world\<lparr>secrets_ok := False\<rparr>"

definition demo_project :: pydict where
  "demo_project = new_project ''Push Notifications'' 70 2 95 2 (133 / 2)"

text \<open>A reachable world in which Rolf's table holds one project.\<close>

definition stocked_world :: world where
  "stocked_world = demo_world\<lparr>sheets := [''Rolf'' \<mapsto> [HEADER, row_of demo_project]]\<rparr>"

text \<open>The same, but the third request to the service raises.\<close>

definition failing_world :: world where
  "failing_world = stocked_world\<lparr>faults := [False, False, True]\<rparr>"

text \<open>
  A world with credentials and a document in which Rolf has no worksheet, where the
  fourth request to the service raises: the worksheet is added, its header is not written.
\<close>

definition half_made_world :: world where
  "half_made_world = demo_world\<lparr>faults := [False, False, False, True]\<rparr>"

section \<open>The scorer\<close>



section \<open>Facts about the store and the program\<close>

lemma tick_simps [simp]:
  "sheets (tick c w) = sheets w" "faults (tick c w) = tl (faults w)"
  "calls (tick c w) = calls w @ [c]" "session_state (tick c w) = session_state w"
  "shown (tick c w) = shown w" "secrets_ok (tick c w) = secrets_ok w"
  "doc_found (tick c w) = doc_found w" "spreadsheet_url (tick c w) = spreadsheet_url w"
  by (simp_all add: tick_def)

lemma set_tl_subset: "set (tl xs) \<subseteq> set xs"
  by (cases xs) auto

lemma reachable_tick [simp]: "reachable w \<Longrightarrow> reachable (tick c w)"
  using set_tl_subset [of "faults w"] by (auto simp: reachable_def)

lemma reachable_sheets_update [simp]: "reachable (w\<lparr>sheets := s\<rparr>) = reachable w"
  by (simp add: reachable_def)

lemma reachable_shown_update [simp]: "reachable (w\<lparr>shown := s\<rparr>) = reachable w"
  by (simp add: reachable_def)

lemma reachable_session_update [simp]: "reachable (w\<lparr>session_state := s\<rparr>) = reachable w"
  by (simp add: reachable_def)

lemma request_reachable: "reachable w \<Longrightarrow> request c w = (Inr (), tick c w)"
  by (auto simp: reachable_def request_def split: list.splits)

lemma open_by_url_reachable:
  "reachable w \<Longrightarrow> open_by_url c url w = (Inr Spreadsheet, tick (OpenByUrl url) w)"
  by (simp add: open_by_url_def seq_def request_reachable open_document_def reachable_def)

lemma open_by_name_reachable:
  "reachable w \<Longrightarrow> open_by_name c t w = (Inr Spreadsheet, tick (OpenByName t) w)"
  by (simp add: open_by_name_def seq_def request_reachable open_document_def reachable_def)

lemma sh_worksheet_reachable:
  "reachable w \<Longrightarrow> sh_worksheet sh u w =
     (case sheets w u of None \<Rightarrow> Inl WorksheetNotFound | Some _ \<Rightarrow> Inr u, tick (GetWorksheet u) w)"
  by (simp add: sh_worksheet_def seq_def request_reachable split: option.splits)

lemma add_worksheet_reachable:
  "reachable w \<Longrightarrow> sheets w u = None \<Longrightarrow> add_worksheet sh u w =
     (Inr u, (tick (AddWorksheet u) w)\<lparr>sheets := (sheets w)(u \<mapsto> [])\<rparr>)"
  by (simp add: add_worksheet_def seq_def request_reachable)

lemma append_row_reachable:
  "reachable w \<Longrightarrow> sheets w ws = Some rows \<Longrightarrow> append_row ws r w =
     (Inr (), (tick (AppendRow ws r) w)\<lparr>sheets := (sheets w)(ws \<mapsto> rows @ [r])\<rparr>)"
  by (simp add: append_row_def seq_def request_reachable)

lemma clear_reachable:
  "reachable w \<Longrightarrow> sheets w ws = Some rows \<Longrightarrow> clear ws w =
     (Inr (), (tick (ClearSheet ws) w)\<lparr>sheets := (sheets w)(ws \<mapsto> [])\<rparr>)"
  by (simp add: clear_def seq_def request_reachable)

lemma get_all_records_reachable:
  "reachable w \<Longrightarrow> sheets w ws = Some rows \<Longrightarrow> get_all_records ws w =
     (Inr (records_of rows), tick (GetAllRecords ws) w)"
  by (simp add: get_all_records_def seq_def request_reachable)

lemma init_gsheets_eq: "init_gsheets w = (Inr (if secrets_ok w then Some Client else None), w)"
  by (simp add: init_gsheets_def try_except_def seq_def from_service_account_info_def return_def)


lemma get_worksheet_existing:
  assumes "reachable w" "sheets w u = Some rows"
  shows "get_worksheet (Some c) u w = (Inr (Some u), tick (GetWorksheet u) (tick (open_call w) w))"
  using assms
  by (simp add: get_worksheet_def try_except_def seq_def return_def open_call_def
      open_by_url_reachable open_by_name_reachable sh_worksheet_reachable)

lemma get_worksheet_missing:
  assumes "reachable w" "sheets w u = None"
  shows "get_worksheet (Some c) u w =
     (Inr (Some u),
      (tick (AppendRow u HEADER) ((tick (AddWorksheet u) (tick (GetWorksheet u) (tick (open_call w) w)))
           \<lparr>sheets := (sheets w)(u \<mapsto> [])\<rparr>))\<lparr>sheets := (sheets w)(u \<mapsto> [HEADER])\<rparr>)"
  using assms
  by (simp add: get_worksheet_def try_except_def seq_def return_def open_call_def
      open_by_url_reachable open_by_name_reachable sh_worksheet_reachable
      add_worksheet_reachable append_row_reachable)


lemma get_worksheet_reachable:
  assumes "reachable w"
  shows "fst (get_worksheet (Some c) u w) = Inr (Some u)"
    and "reachable (snd (get_worksheet (Some c) u w))"
    and "sheets (snd (get_worksheet (Some c) u w)) =
           (sheets w)(u \<mapsto> (case sheets w u of None \<Rightarrow> [HEADER] | Some t \<Rightarrow> t))"
    and "calls (snd (get_worksheet (Some c) u w)) =
           calls w @ [open_call w, GetWorksheet u] @
             (if sheets w u = None then [AddWorksheet u, AppendRow u HEADER] else [])"
    and "session_state (snd (get_worksheet (Some c) u w)) = session_state w"
    and "shown (snd (get_worksheet (Some c) u w)) = shown w"
    and "secrets_ok (snd (get_worksheet (Some c) u w)) = secrets_ok w"
  using assms
  by (cases "sheets w u"; simp add: get_worksheet_existing get_worksheet_missing fun_upd_idem)+

lemma user_worksheet_eq:
  "user_worksheet u w = get_worksheet (if secrets_ok w then Some Client else None) u w"
  by (simp add: user_worksheet_def seq_def init_gsheets_eq)

lemma load_eq:
  "load_user_projects u w =
     (case user_worksheet u w of
        (Inl e, w1) \<Rightarrow> (Inl e, w1)
      | (Inr None, w1) \<Rightarrow> (Inr [], w1)
      | (Inr (Some ws), w1) \<Rightarrow>
          (case get_all_records ws w1 of
             (Inl e, w2) \<Rightarrow> (Inr [], w2)
           | (Inr records, w2) \<Rightarrow> (Inr records, w2)))"
  by (simp add: load_user_projects_def user_worksheet_def seq_def try_except_def return_def
      split: prod.splits sum.splits option.splits)

lemma save_eq:
  "save_user_projects u ps w =
     (case user_worksheet u w of
        (Inl e, w1) \<Rightarrow> (Inl e, w1)
      | (Inr None, w1) \<Rightarrow> (Inr True, w1\<lparr>shown := shown w1 @ [WarnNotConfigured]\<rparr>)
      | (Inr (Some ws), w1) \<Rightarrow>
          (case write_projects ws ps w1 of
             (Inl e, w2) \<Rightarrow> (Inr False, w2\<lparr>shown := shown w2 @ [ErrorSaving e]\<rparr>)
           | (Inr b, w2) \<Rightarrow> (Inr b, w2)))"
  by (simp add: save_user_projects_def user_worksheet_def seq_def try_except_def return_def
      st_show_def split: prod.splits sum.splits option.splits)


lemma HEADER_distinct: "distinct HEADER"
  by (simp add: HEADER_def)

lemma getitems_ok:
  "set ks \<subseteq> dom d \<Longrightarrow>
     getitems d ks = Inr (map (\<lambda>k. case d k of None \<Rightarrow> Str [] | Some v \<Rightarrow> v) ks)"
  by (induction ks) (auto simp: getitem_def)

lemma project_row_ok: "is_project p \<Longrightarrow> project_row p = Inr (row_of p)"
  unfolding project_row_def row_of_def is_project_def
  using getitems_ok [of HEADER p] by (simp add: HEADER_def)

lemma length_row_of [simp]: "length (row_of p) = length HEADER"
  by (simp add: row_of_def)

lemma map_upds_lookup:
  "distinct ks \<Longrightarrow> set ks \<subseteq> dom d \<Longrightarrow>
     (m(ks [\<mapsto>] map (\<lambda>k. case d k of None \<Rightarrow> Str [] | Some v \<Rightarrow> v) ks)) k =
       (if k \<in> set ks then d k else m k)"
proof (induction ks arbitrary: m)
  case Nil
  then show ?case by simp
next
  case (Cons a ks)
  from Cons.prems obtain v where v: "d a = Some v" by auto
  from Cons.prems have ks: "distinct ks" "set ks \<subseteq> dom d" by auto
  have "(m(a # ks [\<mapsto>] map (\<lambda>k. case d k of None \<Rightarrow> Str [] | Some v \<Rightarrow> v) (a # ks))) k =
        ((m(a \<mapsto> v))(ks [\<mapsto>] map (\<lambda>k. case d k of None \<Rightarrow> Str [] | Some v \<Rightarrow> v) ks)) k"
    by (simp add: v)
  also have "\<dots> = (if k \<in> set ks then d k else (m(a \<mapsto> v)) k)"
    by (rule Cons.IH [OF ks])
  also have "\<dots> = (if k \<in> set (a # ks) then d k else m k)"
    using v by auto
  finally show ?case .
qed

lemma map_upds_row:
  assumes "distinct ks" "dom d = set ks"
  shows "Map.empty(ks [\<mapsto>] map (\<lambda>k. case d k of None \<Rightarrow> Str [] | Some v \<Rightarrow> v) ks) = d"
proof (rule ext)
  fix k
  have "d k = None" if "k \<notin> set ks"
    using that assms(2) by auto
  then show "(Map.empty(ks [\<mapsto>] map (\<lambda>k. case d k of None \<Rightarrow> Str [] | Some v \<Rightarrow> v) ks)) k = d k"
    using map_upds_lookup [of ks d Map.empty k] assms by auto
qed

lemma dict_of_row: "is_project p \<Longrightarrow> Map.empty(HEADER [\<mapsto>] row_of p) = p"
  unfolding row_of_def is_project_def by (rule map_upds_row [OF HEADER_distinct])

lemma records_of_rows:
  "list_all is_project ps \<Longrightarrow> records_of (HEADER # map row_of ps) = ps"
  by (induction ps) (simp_all add: records_of_def dict_of_row)

lemma append_projects_reachable:
  assumes "reachable w" "sheets w ws = Some rows" "list_all is_project ps"
  shows "fst (append_projects ws ps w) = Inr () \<and>
         reachable (snd (append_projects ws ps w)) \<and>
         sheets (snd (append_projects ws ps w)) = (sheets w)(ws \<mapsto> rows @ map row_of ps) \<and>
         calls (snd (append_projects ws ps w)) = calls w @ map (AppendRow ws) (map row_of ps) \<and>
         session_state (snd (append_projects ws ps w)) = session_state w \<and>
         shown (snd (append_projects ws ps w)) = shown w \<and>
         secrets_ok (snd (append_projects ws ps w)) = secrets_ok w"
  using assms
proof (induction ps arbitrary: w rows)
  case Nil
  then show ?case by (simp add: fun_upd_idem)
next
  case (Cons p ps)
  let ?w' = "(tick (AppendRow ws (row_of p)) w)\<lparr>sheets := (sheets w)(ws \<mapsto> rows @ [row_of p])\<rparr>"
  have step: "append_projects ws (p # ps) w = append_projects ws ps ?w'"
    using Cons.prems by (simp add: project_row_ok append_row_reachable)
  have "reachable ?w'" "sheets ?w' ws = Some (rows @ [row_of p])" "list_all is_project ps"
    using Cons.prems by simp_all
  note IH = Cons.IH [OF this]
  have sh: "sheets (snd (append_projects ws ps ?w')) =
              (sheets ?w')(ws \<mapsto> (rows @ [row_of p]) @ map row_of ps)"
    using IH by blast
  have sh': "(sheets ?w')(ws \<mapsto> (rows @ [row_of p]) @ map row_of ps) =
              (sheets w)(ws \<mapsto> rows @ map row_of (p # ps))"
    by simp
  have ca: "calls (snd (append_projects ws ps ?w')) =
              calls ?w' @ map (AppendRow ws) (map row_of ps)"
    using IH by blast
  have rest: "fst (append_projects ws ps ?w') = Inr ()"
    "reachable (snd (append_projects ws ps ?w'))"
    "session_state (snd (append_projects ws ps ?w')) = session_state ?w'"
    "shown (snd (append_projects ws ps ?w')) = shown ?w'"
    "secrets_ok (snd (append_projects ws ps ?w')) = secrets_ok ?w'"
    using IH by blast+
  show ?case
    unfolding step using rest by (simp add: sh sh' ca del: fun_upd_apply)
qed

lemma write_projects_reachable:
  assumes "reachable w" "sheets w ws = Some rows" "list_all is_project ps"
  shows "fst (write_projects ws ps w) = Inr True \<and>
         reachable (snd (write_projects ws ps w)) \<and>
         sheets (snd (write_projects ws ps w)) = (sheets w)(ws \<mapsto> HEADER # map row_of ps) \<and>
         calls (snd (write_projects ws ps w)) =
           calls w @ [ClearSheet ws, AppendRow ws HEADER] @ map (AppendRow ws) (map row_of ps) \<and>
         session_state (snd (write_projects ws ps w)) = session_state w \<and>
         shown (snd (write_projects ws ps w)) = shown w \<and>
         secrets_ok (snd (write_projects ws ps w)) = secrets_ok w"
proof -
  let ?w1 = "(tick (ClearSheet ws) w)\<lparr>sheets := (sheets w)(ws \<mapsto> [])\<rparr>"
  let ?w2 = "(tick (AppendRow ws HEADER) ?w1)\<lparr>sheets := (sheets ?w1)(ws \<mapsto> [] @ [HEADER])\<rparr>"
  have c: "clear ws w = (Inr (), ?w1)"
    using assms by (simp add: clear_reachable)
  have r1: "reachable ?w1" "sheets ?w1 ws = Some []" using assms by simp_all
  have a: "append_row ws HEADER ?w1 = (Inr (), ?w2)"
    by (rule append_row_reachable [OF r1])
  have r2: "reachable ?w2" "sheets ?w2 ws = Some [HEADER]" using assms by simp_all
  have eq: "write_projects ws ps w =
     (case append_projects ws ps ?w2 of (Inl e, w') \<Rightarrow> (Inl e, w') | (Inr _, w') \<Rightarrow> (Inr True, w'))"
    by (simp add: write_projects_def seq_def c a return_def split: prod.splits sum.splits)
  from append_projects_reachable [OF r2 assms(3)] show ?thesis
    unfolding eq by (auto split: prod.splits sum.splits)
qed


lemma user_worksheet_reachable:
  assumes "reachable w"
  shows "fst (user_worksheet u w) = Inr (Some u) \<and>
         reachable (snd (user_worksheet u w)) \<and>
         sheets (snd (user_worksheet u w)) =
           (sheets w)(u \<mapsto> (case sheets w u of None \<Rightarrow> [HEADER] | Some t \<Rightarrow> t)) \<and>
         calls (snd (user_worksheet u w)) =
           calls w @ [open_call w, GetWorksheet u] @
             (if sheets w u = None then [AddWorksheet u, AppendRow u HEADER] else []) \<and>
         session_state (snd (user_worksheet u w)) = session_state w \<and>
         shown (snd (user_worksheet u w)) = shown w \<and>
         secrets_ok (snd (user_worksheet u w)) = secrets_ok w"
proof -
  have "secrets_ok w" using assms by (simp add: reachable_def)
  then have "user_worksheet u w = get_worksheet (Some Client) u w"
    by (simp add: user_worksheet_eq)
  then show ?thesis
    using get_worksheet_reachable [OF assms, of Client u] by simp
qed

lemma save_reachable:
  assumes "reachable w" "list_all is_project ps"
  shows "fst (save_user_projects u ps w) = Inr True \<and>
         reachable (snd (save_user_projects u ps w)) \<and>
         sheets (snd (save_user_projects u ps w)) = (sheets w)(u \<mapsto> HEADER # map row_of ps) \<and>
         calls (snd (save_user_projects u ps w)) =
           calls (snd (user_worksheet u w)) @
             [ClearSheet u, AppendRow u HEADER] @ map (AppendRow u) (map row_of ps) \<and>
         session_state (snd (save_user_projects u ps w)) = session_state w \<and>
         shown (snd (save_user_projects u ps w)) = shown w"
proof -
  note uw = user_worksheet_reachable [OF assms(1), of u]
  obtain w1 where r: "user_worksheet u w = (Inr (Some u), w1)"
    using uw by (metis prod.collapse)
  have r1: "reachable w1" using uw r by simp
  have s1: "sheets w1 u = Some (case sheets w u of None \<Rightarrow> [HEADER] | Some t \<Rightarrow> t)"
    using uw r by simp
  note wp = write_projects_reachable [OF r1 s1 assms(2)]
  obtain w2 where w2: "write_projects u ps w1 = (Inr True, w2)"
    using wp by (metis prod.collapse)
  have eq: "save_user_projects u ps w = (Inr True, w2)"
    by (simp add: save_eq r w2)
  show ?thesis
    using wp uw by (simp add: eq r w2)
qed

lemma load_reachable:
  assumes "reachable w"
  shows "fst (load_user_projects u w) =
           Inr (records_of (case sheets w u of None \<Rightarrow> [HEADER] | Some t \<Rightarrow> t)) \<and>
         reachable (snd (load_user_projects u w)) \<and>
         sheets (snd (load_user_projects u w)) =
           (sheets w)(u \<mapsto> (case sheets w u of None \<Rightarrow> [HEADER] | Some t \<Rightarrow> t)) \<and>
         calls (snd (load_user_projects u w)) =
           calls (snd (user_worksheet u w)) @ [GetAllRecords u] \<and>
         session_state (snd (load_user_projects u w)) = session_state w \<and>
         shown (snd (load_user_projects u w)) = shown w"
proof -
  note uw = user_worksheet_reachable [OF assms(1), of u]
  obtain w1 where r: "user_worksheet u w = (Inr (Some u), w1)"
    using uw by (metis prod.collapse)
  have r1: "reachable w1" using uw r by simp
  have s1: "sheets w1 u = Some (case sheets w u of None \<Rightarrow> [HEADER] | Some t \<Rightarrow> t)"
    using uw r by simp
  have eq: "load_user_projects u w =
      (Inr (records_of (case sheets w u of None \<Rightarrow> [HEADER] | Some t \<Rightarrow> t)),
       tick (GetAllRecords u) w1)"
    by (simp add: load_eq r get_all_records_reachable [OF r1 s1])
  show ?thesis
    using uw r1 by (simp add: eq r)
qed

lemma reachable_demo_world: "reachable demo_world"
  by (simp add: reachable_def demo_world_def)

lemma reachable_stocked_world: "reachable stocked_world"
  by (simp add: reachable_def stocked_world_def demo_world_def)

lemma is_project_new_project: "is_project (new_project n r i c e s)"
  by (auto simp: is_project_def new_project_def HEADER_def)

lemma is_project_demo_project: "list_all is_project [demo_project]"
  by (simp add: demo_project_def is_project_new_project)

lemma sheets_demo_world: "sheets demo_world = Map.empty"
  by (simp add: demo_world_def)

lemma sheets_stocked_world: "sheets stocked_world = [''Rolf'' \<mapsto> [HEADER, row_of demo_project]]"
  by (simp add: stocked_world_def)

lemmas program_defs =
  return_def raise_def seq_def try_except_def lift_def st_show_def set_session_state_def
  request_def tick_def open_document_def open_by_url_def open_by_name_def sh_worksheet_def
  add_worksheet_def append_row_def clear_def get_all_records_def
  from_service_account_info_def init_gsheets_def get_worksheet_def user_worksheet_def

lemma user_worksheet_failing_world:
  "fst (user_worksheet ''Rolf'' failing_world) = Inr (Some ''Rolf'')"
  "next_fails (snd (user_worksheet ''Rolf'' failing_world))"
  "sheets (snd (user_worksheet ''Rolf'' failing_world)) ''Rolf'' = Some [HEADER, row_of demo_project]"
  by (simp_all add: program_defs failing_world_def stocked_world_def demo_world_def next_fails_def)

lemma user_worksheet_offline_world:
  "user_worksheet u offline_world = (Inr None, offline_world)"
  by (simp add: program_defs offline_world_def demo_world_def)

lemma save_offline:
  "\<not> secrets_ok w \<Longrightarrow>
     save_user_projects u ps w = (Inr True, w\<lparr>shown := shown w @ [WarnNotConfigured]\<rparr>)"
  by (simp add: save_eq user_worksheet_eq get_worksheet_def return_def)

lemma load_offline: "\<not> secrets_ok w \<Longrightarrow> load_user_projects u w = (Inr [], w)"
  by (simp add: load_eq user_worksheet_eq get_worksheet_def return_def)

section \<open>Saving\<close>

text \<open>
  C4. With the store reachable, saving a sequence of project records succeeds and
  rewrites the whole table of the user: the requests after the worksheet lookup are one
  clear, one append of the six-column header, and one append per record in the order of
  the sequence, so that the table is the header followed by the rows of the records; the
  tables of the other users stay as they are. Saving the same sequence again leaves the
  table as it is.
\<close>

theorem save_rewrites_table:
  assumes "reachable w" and "list_all is_project projects"
  shows "fst (save_user_projects u projects w) = Inr True \<and>
         map project_row projects = map Inr (map row_of projects) \<and>
         sheets (snd (save_user_projects u projects w)) =
           (sheets w)(u \<mapsto> HEADER # map row_of projects) \<and>
         calls (snd (save_user_projects u projects w)) =
           calls (snd (user_worksheet u w)) @
             [ClearSheet u, AppendRow u HEADER] @ map (AppendRow u) (map row_of projects) \<and>
         sheets (snd (save_user_projects u projects (snd (save_user_projects u projects w)))) =
           sheets (snd (save_user_projects u projects w))"
proof -
  note s1 = save_reachable [OF assms, of u]
  then have r: "reachable (snd (save_user_projects u projects w))" by blast
  note s2 = save_reachable [OF r assms(2), of u]
  have rows: "map project_row projects = map Inr (map row_of projects)"
    using assms(2) by (induction projects) (simp_all add: project_row_ok)
  show ?thesis using s1 s2 rows by simp
qed

theorem save_rewrites_table_witness:
  "reachable stocked_world \<and> list_all is_project [demo_project, demo_project] \<and>
   fst (save_user_projects ''Rolf'' [demo_project, demo_project] stocked_world) = Inr True \<and>
   sheets (snd (save_user_projects ''Rolf'' [demo_project, demo_project] stocked_world)) ''Rolf'' =
     Some [HEADER, row_of demo_project, row_of demo_project]"
  using save_rewrites_table [of stocked_world "[demo_project, demo_project]" "''Rolf''"]
    reachable_stocked_world is_project_demo_project
  by simp

text \<open>
  C7. Round trip over a reachable store: loading after saving a sequence of project
  records returns the same records in the same order.
\<close>

theorem save_load_roundtrip:
  assumes "reachable w" and "list_all is_project projects"
  shows "fst (load_user_projects u (snd (save_user_projects u projects w))) = Inr projects"
proof -
  note s1 = save_reachable [OF assms, of u]
  then have r: "reachable (snd (save_user_projects u projects w))" by blast
  from load_reachable [OF r, of u] s1 show ?thesis
    by (simp add: records_of_rows [OF assms(2)])
qed

theorem save_load_roundtrip_witness:
  "reachable demo_world \<and> list_all is_project [demo_project] \<and>
   fst (load_user_projects ''Rolf'' (snd (save_user_projects ''Rolf'' [demo_project] demo_world)))
     = Inr [demo_project]"
  using save_load_roundtrip [OF reachable_demo_world is_project_demo_project, of "''Rolf''"]
    reachable_demo_world is_project_demo_project
  by simp

text \<open>
  C10. Loading is not read-only: for a user with no worksheet in a reachable store it
  adds the worksheet and appends the six-column header to it before it reads, changes
  the document that way, and returns no records.
\<close>

theorem load_creates_worksheet:
  assumes "reachable w" and "sheets w u = None"
  shows "fst (load_user_projects u w) = Inr [] \<and>
         sheets (snd (load_user_projects u w)) = (sheets w)(u \<mapsto> [HEADER]) \<and>
         sheets (snd (load_user_projects u w)) \<noteq> sheets w \<and>
         calls (snd (load_user_projects u w)) =
           calls w @ [open_call w, GetWorksheet u, AddWorksheet u, AppendRow u HEADER,
                      GetAllRecords u]"
proof -
  note l = load_reachable [OF assms(1), of u]
  note uw = user_worksheet_reachable [OF assms(1), of u]
  have ne: "(sheets w)(u \<mapsto> [HEADER]) \<noteq> sheets w"
    using assms(2) by (metis fun_upd_same option.distinct(1))
  show ?thesis using l uw ne assms(2) by (simp add: records_of_def)
qed

theorem load_creates_worksheet_witness:
  "reachable demo_world \<and> sheets demo_world ''Rolf'' = None \<and>
   fst (load_user_projects ''Rolf'' demo_world) = Inr [] \<and>
   sheets (snd (load_user_projects ''Rolf'' demo_world)) ''Rolf'' = Some [HEADER]"
  using load_creates_worksheet [of demo_world "''Rolf''"] reachable_demo_world
  by (simp add: sheets_demo_world)

text \<open>
  C8. With the store reachable, the clear action succeeds and leaves the table of the
  user with the header row alone, whatever the table held before, and the tables of the
  other users as they were; the session's list is empty, and loading the user's projects
  afterwards returns an empty sequence. With no credentials the action succeeds as well
  and the load afterwards returns an empty sequence.
\<close>

theorem clear_all_empties_table:
  "(reachable w \<longrightarrow>
      fst (clear_all u w) = Inr True \<and>
      sheets (snd (clear_all u w)) = (sheets w)(u \<mapsto> [HEADER]) \<and>
      session_state (snd (clear_all u w)) (projects_key u) = Some [] \<and>
      fst (load_user_projects u (snd (clear_all u w))) = Inr []) \<and>
   (\<not> secrets_ok w \<longrightarrow>
      fst (clear_all u w) = Inr True \<and>
      session_state (snd (clear_all u w)) (projects_key u) = Some [] \<and>
      fst (load_user_projects u (snd (clear_all u w))) = Inr [])"
proof (intro conjI impI)
  assume r: "reachable w"
  have "list_all is_project []" by simp
  note s = save_reachable [OF r this, of u]
  obtain w1 where w1: "save_user_projects u [] w = (Inr True, w1)"
    using s by (metis prod.collapse)
  have eq: "clear_all u w =
      (Inr True, w1\<lparr>session_state := (session_state w1)(projects_key u \<mapsto> [])\<rparr>)"
    by (simp add: clear_all_def seq_def w1 set_session_state_def return_def)
  have r1: "reachable (w1\<lparr>session_state := (session_state w1)(projects_key u \<mapsto> [])\<rparr>)"
    using s by (simp add: w1)
  show "fst (clear_all u w) = Inr True" by (simp add: eq)
  show "sheets (snd (clear_all u w)) = (sheets w)(u \<mapsto> [HEADER])"
    using s by (simp add: eq w1)
  show "session_state (snd (clear_all u w)) (projects_key u) = Some []"
    by (simp add: eq)
  show "fst (load_user_projects u (snd (clear_all u w))) = Inr []"
    using load_reachable [OF r1, of u] s by (simp add: eq w1 records_of_def)
next
  assume o: "\<not> secrets_ok w"
  let ?w1 = "w\<lparr>shown := shown w @ [WarnNotConfigured]\<rparr>"
  have eq: "clear_all u w =
      (Inr True, ?w1\<lparr>session_state := (session_state ?w1)(projects_key u \<mapsto> [])\<rparr>)"
    by (simp add: clear_all_def seq_def save_offline [OF o] set_session_state_def return_def)
  show "fst (clear_all u w) = Inr True" by (simp add: eq)
  show "session_state (snd (clear_all u w)) (projects_key u) = Some []"
    by (simp add: eq)
  show "fst (load_user_projects u (snd (clear_all u w))) = Inr []"
    using o by (simp add: eq load_offline)
qed

theorem clear_all_empties_table_witness:
  "reachable stocked_world \<and>
   sheets stocked_world ''Rolf'' = Some [HEADER, row_of demo_project] \<and>
   fst (clear_all ''Rolf'' stocked_world) = Inr True \<and>
   sheets (snd (clear_all ''Rolf'' stocked_world)) ''Rolf'' = Some [HEADER] \<and>
   fst (load_user_projects ''Rolf'' (snd (clear_all ''Rolf'' stocked_world))) = Inr [] \<and>
   \<not> secrets_ok offline_world \<and>
   fst (clear_all ''Rolf'' offline_world) = Inr True \<and>
   fst (load_user_projects ''Rolf'' (snd (clear_all ''Rolf'' offline_world))) = Inr []"
  using clear_all_empties_table [of stocked_world "''Rolf''"]
    clear_all_empties_table [of offline_world "''Rolf''"]
    reachable_stocked_world
  by (simp add: sheets_stocked_world offline_world_def demo_world_def)

lemma request_eq:
  "request c w = (if next_fails w then Inl APIError else Inr (), tick c w)"
  by (simp add: request_def next_fails_def split: list.splits)

lemma try_except_total:
  assumes "\<And>e w'. \<exists>x w''. h e w' = (Inr x, w'')"
  shows "\<exists>x w''. try_except m h w = (Inr x, w'')"
proof (cases "m w")
  case (Pair r w')
  show ?thesis
  proof (cases r)
    case (Inl e)
    with Pair assms [of e w'] show ?thesis by (simp add: try_except_def)
  next
    case (Inr x)
    with Pair show ?thesis by (simp add: try_except_def)
  qed
qed

lemma get_worksheet_total: "\<exists>h w1. get_worksheet gc u w = (Inr h, w1)"
proof (cases gc)
  case None
  then show ?thesis by (simp add: get_worksheet_def return_def)
next
  case (Some c)
  have "\<exists>x w''. seq (st_show (ErrorAccessing e)) (\<lambda>_. return None) w' = (Inr x, w'')"
    for e w' and x :: "worksheet option"
    by (simp add: seq_def st_show_def return_def)
  then show ?thesis
    unfolding get_worksheet_def Some option.case by (rule try_except_total)
qed

lemma user_worksheet_total: "\<exists>h w1. user_worksheet u w = (Inr h, w1)"
  by (simp add: user_worksheet_eq get_worksheet_total)

lemma fetch_worksheet_Some:
  assumes "try_except (sh_worksheet sh u)
             (\<lambda>e. if e = WorksheetNotFound
                  then seq (add_worksheet sh u) (\<lambda>worksheet.
                       seq (append_row worksheet HEADER) (\<lambda>_. return worksheet))
                  else raise e) w = (Inr ws, w1)"
  shows "ws = u \<and> sheets w1 u \<noteq> None"
  using assms
  by (auto simp: try_except_def sh_worksheet_def add_worksheet_def append_row_def seq_def
      request_eq return_def raise_def split: if_splits option.splits prod.splits sum.splits)

lemma open_keeps_sheets:
  "open_by_url c url w = (r, w1) \<Longrightarrow> sheets w1 = sheets w"
  "open_by_name c t w = (r, w1) \<Longrightarrow> sheets w1 = sheets w"
  by (auto simp: open_by_url_def open_by_name_def open_document_def seq_def request_eq
      split: if_splits)

lemma get_worksheet_Some:
  assumes "get_worksheet gc u w = (Inr (Some ws), w1)"
  shows "ws = u \<and> sheets w1 u \<noteq> None"
proof (cases gc)
  case None
  with assms show ?thesis by (simp add: get_worksheet_def return_def)
next
  case (Some c)
  with assms show ?thesis
    by (auto simp: get_worksheet_def try_except_def [of "seq _ _"] seq_def [of "\<lambda>w. (Inr (spreadsheet_url w), w)"]
        seq_def [of "open_by_url _ _"] seq_def [of "open_by_name _ _"] seq_def [of "try_except _ _"]
        seq_def [of "st_show _"] st_show_def return_def
        split: if_splits prod.splits sum.splits dest: fetch_worksheet_Some)
qed


lemma fetch_worksheet_fail_sheets:
  assumes "try_except (sh_worksheet sh u)
             (\<lambda>e. if e = WorksheetNotFound
                  then seq (add_worksheet sh u) (\<lambda>worksheet.
                       seq (append_row worksheet HEADER) (\<lambda>_. return worksheet))
                  else raise e) w = (Inl e, w1)"
  shows "sheets w1 = sheets w \<or> (sheets w u = None \<and> sheets w1 = (sheets w)(u \<mapsto> []))"
  using assms
  by (auto simp: try_except_def sh_worksheet_def add_worksheet_def append_row_def seq_def
      request_eq return_def raise_def split: if_splits option.splits prod.splits sum.splits)

lemma get_worksheet_None:
  assumes "get_worksheet gc u w = (Inr None, w1)"
  shows "sheets w1 = sheets w \<or> (sheets w u = None \<and> sheets w1 = (sheets w)(u \<mapsto> []))"
proof (cases gc)
  case None
  with assms show ?thesis by (simp add: get_worksheet_def return_def)
next
  case (Some c)
  with assms show ?thesis
    by (auto simp: get_worksheet_def try_except_def [of "seq _ _"] seq_def [of "\<lambda>w. (Inr (spreadsheet_url w), w)"]
        seq_def [of "open_by_url _ _"] seq_def [of "open_by_name _ _"] seq_def [of "try_except _ _"]
        seq_def [of "st_show _"] st_show_def return_def
        split: if_splits prod.splits sum.splits
        dest!: fetch_worksheet_fail_sheets open_keeps_sheets)
qed

lemma get_all_records_eq:
  "sheets w ws = Some rows \<Longrightarrow>
     get_all_records ws w =
       (if next_fails w then Inl APIError else Inr (records_of rows), tick (GetAllRecords ws) w)"
  by (simp add: get_all_records_def seq_def request_eq)

section \<open>Loading\<close>

text \<open>
  C6. Loading never raises: it returns a sequence in every world. The sequence is empty
  when the credentials are missing, when no worksheet handle was obtained, and when the
  read request raises; otherwise the handle is the user's worksheet and the result has
  one record per row below the first row of that table, in the order of the rows, each
  mapping the cells of the first row to the cells of its row (a missing cell reads as the
  empty string).
\<close>

theorem load_user_projects_swallows_errors:
  assumes "user_worksheet u w = (r, w1)"
  shows "(\<exists>records. fst (load_user_projects u w) = Inr records) \<and>
         (\<not> secrets_ok w \<longrightarrow> fst (load_user_projects u w) = Inr []) \<and>
         (r = Inr None \<longrightarrow> fst (load_user_projects u w) = Inr []) \<and>
         (r \<noteq> Inr None \<longrightarrow>
            (\<exists>rows. r = Inr (Some u) \<and> sheets w1 u = Some rows \<and>
               (isl (fst (get_all_records u w1)) = next_fails w1) \<and>
               fst (load_user_projects u w) =
                 Inr (if next_fails w1 then []
                      else case rows of
                             [] \<Rightarrow> []
                           | keys # rs \<Rightarrow>
                               map (\<lambda>cells. Map.empty
                                      (keys [\<mapsto>] cells @ replicate (length keys - length cells) (Str [])))
                                 rs)))"
proof -
  from user_worksheet_total [of u w] assms obtain h where r: "r = Inr h" by auto
  have off: "fst (load_user_projects u w) = Inr []" if "\<not> secrets_ok w"
    using that by (simp add: load_eq user_worksheet_eq get_worksheet_def return_def)
  show ?thesis
  proof (cases h)
    case None
    with r assms off show ?thesis by (simp add: load_eq)
  next
    case (Some ws)
    with r assms have "get_worksheet (if secrets_ok w then Some Client else None) u w
        = (Inr (Some ws), w1)"
      by (simp add: user_worksheet_eq)
    from get_worksheet_Some [OF this] obtain rows where ws: "ws = u" "sheets w1 u = Some rows"
      by auto
    from r Some assms ws off show ?thesis
      by (auto simp: load_eq get_all_records_eq records_of_def)
  qed
qed

lemma user_worksheet_stocked_world:
  "fst (user_worksheet ''Rolf'' stocked_world) = Inr (Some ''Rolf'')"
  "\<not> next_fails (snd (user_worksheet ''Rolf'' stocked_world))"
  "sheets (snd (user_worksheet ''Rolf'' stocked_world)) ''Rolf'' = Some [HEADER, row_of demo_project]"
  by (simp_all add: program_defs stocked_world_def demo_world_def next_fails_def)

lemma demo_project_fields:
  "demo_project (Str ''Project'') = Some (Str ''Push Notifications'')"
  "demo_project (Str ''Reach (%)'') = Some (Num 70)"
  by (simp_all add: demo_project_def new_project_def)

theorem load_user_projects_swallows_errors_witness:
  "fst (user_worksheet ''Rolf'' stocked_world) = Inr (Some ''Rolf'') \<and>
   sheets (snd (user_worksheet ''Rolf'' stocked_world)) ''Rolf'' = Some [HEADER, row_of demo_project] \<and>
   fst (load_user_projects ''Rolf'' stocked_world) = Inr [demo_project] \<and>
   demo_project (Str ''Project'') = Some (Str ''Push Notifications'') \<and>
   demo_project (Str ''Reach (%)'') = Some (Num 70) \<and>
   fst (user_worksheet ''Rolf'' failing_world) = Inr (Some ''Rolf'') \<and>
   next_fails (snd (user_worksheet ''Rolf'' failing_world)) \<and>
   fst (load_user_projects ''Rolf'' failing_world) = Inr [] \<and>
   fst (user_worksheet ''Rolf'' offline_world) = Inr None \<and>
   fst (load_user_projects ''Rolf'' offline_world) = Inr []"
proof -
  have p: "is_project demo_project"
    using is_project_demo_project by simp
  from load_user_projects_swallows_errors [OF prod.collapse [symmetric], of "''Rolf''" stocked_world]
    load_user_projects_swallows_errors [OF prod.collapse [symmetric], of "''Rolf''" failing_world]
    load_user_projects_swallows_errors [OF user_worksheet_offline_world, of "''Rolf''"]
  show ?thesis
    using user_worksheet_stocked_world user_worksheet_failing_world demo_project_fields
    by (simp add: user_worksheet_offline_world dict_of_row [OF p])
qed

lemma append_row_eq:
  "sheets w ws = Some rows \<Longrightarrow>
     append_row ws r w =
       (if next_fails w then (Inl APIError, tick (AppendRow ws r) w)
        else (Inr (), (tick (AppendRow ws r) w)\<lparr>sheets := (sheets w)(ws \<mapsto> rows @ [r])\<rparr>))"
  by (simp add: append_row_def seq_def request_eq)

lemma clear_eq:
  "sheets w ws = Some rows \<Longrightarrow>
     clear ws w =
       (if next_fails w then (Inl APIError, tick (ClearSheet ws) w)
        else (Inr (), (tick (ClearSheet ws) w)\<lparr>sheets := (sheets w)(ws \<mapsto> [])\<rparr>))"
  by (simp add: clear_def seq_def request_eq)

lemma next_fails_iff: "next_fails w = (faults w \<noteq> [] \<and> hd (faults w))"
  by (cases "faults w") (simp_all add: next_fails_def)

lemma fault_in_take_Suc:
  "(True \<in> set (take (Suc n) fs)) = ((fs \<noteq> [] \<and> hd fs) \<or> True \<in> set (take n (tl fs)))"
  by (cases fs) auto

lemma append_projects_faults:
  assumes "sheets w ws = Some rows" "list_all is_project ps"
  shows "isl (fst (append_projects ws ps w)) = (True \<in> set (take (length ps) (faults w)))"
  using assms
proof (induction ps arbitrary: w rows)
  case Nil
  then show ?case by simp
next
  case (Cons p ps)
  from Cons.prems have p: "project_row p = Inr (row_of p)" and ps: "list_all is_project ps"
    by (simp_all add: project_row_ok)
  show ?case
  proof (cases "next_fails w")
    case True
    then show ?thesis
      using Cons.prems(1)
      by (simp add: p append_row_eq fault_in_take_Suc next_fails_iff del: take_Suc_Cons)
  next
    case False
    let ?w' = "(tick (AppendRow ws (row_of p)) w)\<lparr>sheets := (sheets w)(ws \<mapsto> rows @ [row_of p])\<rparr>"
    have step: "append_projects ws (p # ps) w = append_projects ws ps ?w'"
      using Cons.prems(1) False by (simp add: p append_row_eq)
    have "sheets ?w' ws = Some (rows @ [row_of p])" by simp
    from Cons.IH [OF this ps] have
      "isl (fst (append_projects ws ps ?w')) = (True \<in> set (take (length ps) (tl (faults w))))"
      by simp
    moreover have "isl (fst (append_projects ws (p # ps) w)) =
        isl (fst (append_projects ws ps ?w'))"
      by (simp only: step)
    moreover have "(True \<in> set (take (length (p # ps)) (faults w))) =
        (True \<in> set (take (length ps) (tl (faults w))))"
      using False by (auto simp: fault_in_take_Suc next_fails_iff)
    ultimately show ?thesis by simp
  qed
qed

lemma write_projects_faults:
  assumes "sheets w ws = Some rows" "list_all is_project ps"
  shows "isl (fst (write_projects ws ps w)) = (True \<in> set (take (length ps + 2) (faults w)))"
proof (cases "next_fails w")
  case True
  then show ?thesis
    using assms(1) by (simp add: write_projects_def seq_def clear_eq fault_in_take_Suc next_fails_iff)
next
  case nf: False
  let ?w1 = "(tick (ClearSheet ws) w)\<lparr>sheets := (sheets w)(ws \<mapsto> [])\<rparr>"
  have c: "clear ws w = (Inr (), ?w1)" using assms(1) nf by (simp add: clear_eq)
  have s1: "sheets ?w1 ws = Some []" by simp
  show ?thesis
  proof (cases "next_fails ?w1")
    case True
    then have "isl (fst (write_projects ws ps w))"
      by (simp add: write_projects_def seq_def c append_row_eq [OF s1])
    moreover have "True \<in> set (take (Suc (Suc (length ps))) (faults w))"
      using True nf by (simp add: fault_in_take_Suc next_fails_iff)
    ultimately show ?thesis by simp
  next
    case False
    let ?w2 = "(tick (AppendRow ws HEADER) ?w1)\<lparr>sheets := (sheets ?w1)(ws \<mapsto> [] @ [HEADER])\<rparr>"
    have a: "append_row ws HEADER ?w1 = (Inr (), ?w2)"
      using False by (simp add: append_row_eq [OF s1])
    have s2: "sheets ?w2 ws = Some [HEADER]" by simp
    have eq: "isl (fst (write_projects ws ps w)) = isl (fst (append_projects ws ps ?w2))"
      by (simp add: write_projects_def seq_def c a return_def split: prod.splits sum.splits)
    have "(True \<in> set (take (Suc (Suc (length ps))) (faults w))) =
          (True \<in> set (take (length ps) (faults ?w2)))"
      using False nf by (auto simp: fault_in_take_Suc next_fails_iff)
    with append_projects_faults [OF s2 assms(2)] eq show ?thesis by simp
  qed
qed

section \<open>What saving reports\<close>

text \<open>
  C5, as the program has it. Saving reports success and writes no project row when no
  worksheet handle was obtained. With no credentials the world is left as it was but for
  the warning shown. After a lookup that failed, the document is as the lookup left it:
  unchanged, or with the user's worksheet newly added and still empty. Saving reports
  failure exactly when a handle was obtained and the writing raises; for project records
  that is when one of the requests clear, header, one append per record raises.
\<close>

theorem save_user_projects_outcome:
  assumes "user_worksheet u w = (r, w1)"
  shows "(\<not> secrets_ok w \<longrightarrow>
            save_user_projects u projects w = (Inr True, w\<lparr>shown := shown w @ [WarnNotConfigured]\<rparr>)) \<and>
         (r = Inr None \<longrightarrow>
            save_user_projects u projects w = (Inr True, w1\<lparr>shown := shown w1 @ [WarnNotConfigured]\<rparr>) \<and>
            (sheets w1 = sheets w \<or> sheets w u = None \<and> sheets w1 = (sheets w)(u \<mapsto> []))) \<and>
         ((fst (save_user_projects u projects w) = Inr False) =
            (\<exists>ws. r = Inr (Some ws) \<and> isl (fst (write_projects ws projects w1)))) \<and>
         (list_all is_project projects \<longrightarrow>
            (fst (save_user_projects u projects w) = Inr False) =
              (r = Inr (Some u) \<and> True \<in> set (take (length projects + 2) (faults w1))))"
proof -
  from user_worksheet_total [of u w] assms obtain h where r: "r = Inr h" by auto
  have off: "save_user_projects u projects w = (Inr True, w\<lparr>shown := shown w @ [WarnNotConfigured]\<rparr>)"
    if "\<not> secrets_ok w"
    using that by (simp add: save_eq user_worksheet_eq get_worksheet_def return_def)
  have gw: "get_worksheet (if secrets_ok w then Some Client else None) u w = (Inr h, w1)"
    using assms r by (simp add: user_worksheet_eq)
  have iff: "(fst (save_user_projects u projects w) = Inr False) =
            (\<exists>ws. r = Inr (Some ws) \<and> isl (fst (write_projects ws projects w1)))"
    using assms r
    by (cases h; cases "write_projects (the h) projects w1"; cases "fst (write_projects (the h) projects w1)")
       (auto simp: save_eq write_projects_def seq_def return_def split: prod.splits sum.splits)
  show ?thesis
  proof (cases h)
    case None
    with gw have "sheets w1 = sheets w \<or> sheets w u = None \<and> sheets w1 = (sheets w)(u \<mapsto> [])"
      using get_worksheet_None by blast
    with None r assms off iff show ?thesis by (simp add: save_eq)
  next
    case (Some ws)
    with gw get_worksheet_Some obtain rows where ws: "ws = u" "sheets w1 u = Some rows"
      by blast
    have "secrets_ok w"
      using gw Some by (cases "secrets_ok w") (simp_all add: get_worksheet_def return_def)
    with Some r ws iff write_projects_faults [OF ws(2), of projects] show ?thesis
      by auto
  qed
qed

theorem save_user_projects_outcome_witness:
  "fst (user_worksheet ''Rolf'' failing_world) = Inr (Some ''Rolf'') \<and>
   list_all is_project [demo_project] \<and>
   True \<in> set (take 3 (faults (snd (user_worksheet ''Rolf'' failing_world)))) \<and>
   fst (save_user_projects ''Rolf'' [demo_project] failing_world) = Inr False \<and>
   \<not> secrets_ok offline_world \<and>
   fst (user_worksheet ''Rolf'' offline_world) = Inr None \<and>
   save_user_projects ''Rolf'' [demo_project] offline_world =
     (Inr True, offline_world\<lparr>shown := shown offline_world @ [WarnNotConfigured]\<rparr>)"
proof -
  have f: "faults (snd (user_worksheet ''Rolf'' failing_world)) = [True]"
    by (simp add: program_defs failing_world_def stocked_world_def demo_world_def)
  have o: "\<not> secrets_ok offline_world"
    by (simp add: offline_world_def demo_world_def)
  from save_user_projects_outcome [where projects = "[demo_project]" and u = "''Rolf''" and w = failing_world,
      OF prod.collapse [symmetric]]
    save_user_projects_outcome [where projects = "[demo_project]", OF user_worksheet_offline_world [of "''Rolf''"]]
  show ?thesis
    using user_worksheet_failing_world is_project_demo_project o
    by (simp add: f user_worksheet_offline_world)
qed

text \<open>
  C5 as stated fails: success with no handle does not mean that nothing was persisted.
  In \<open>half_made_world\<close> the lookup adds Rolf's worksheet and the append of the header
  raises, so the handle is \<^verbatim>\<open>None\<close>; saving reports success and the document has
  changed: it holds the new, empty worksheet.
\<close>

theorem save_adds_worksheet_counterexample:
  "fst (user_worksheet ''Rolf'' half_made_world) = Inr None \<and>
   fst (save_user_projects ''Rolf'' [demo_project] half_made_world) = Inr True \<and>
   sheets half_made_world ''Rolf'' = None \<and>
   sheets (snd (save_user_projects ''Rolf'' [demo_project] half_made_world)) ''Rolf'' = Some [] \<and>
   sheets (snd (save_user_projects ''Rolf'' [demo_project] half_made_world))
     \<noteq> sheets half_made_world"
proof -
  have u: "user_worksheet ''Rolf'' half_made_world =
     (Inr None,
      half_made_world\<lparr>faults := [],
        calls := [OpenByName ''RICE Calculator Data'', GetWorksheet ''Rolf'',
                  AddWorksheet ''Rolf'', AppendRow ''Rolf'' HEADER],
        sheets := [''Rolf'' \<mapsto> []],
        shown := [ErrorAccessing APIError]\<rparr>)"
    by (simp add: program_defs half_made_world_def demo_world_def)
  have s: "sheets half_made_world ''Rolf'' = None"
    by (simp add: half_made_world_def demo_world_def)
  have "sheets (snd (save_user_projects ''Rolf'' [demo_project] half_made_world)) ''Rolf''
      \<noteq> sheets half_made_world ''Rolf''"
    by (simp add: save_eq u s)
  then have "sheets (snd (save_user_projects ''Rolf'' [demo_project] half_made_world))
      \<noteq> sheets half_made_world"
    by metis
  then show ?thesis
    by (simp add: save_eq u s)
qed

section \<open>Doubles: rounding and its error\<close>

lemma powi_pos: "0 < (2::rat) powi n"
  by (simp add: power_int_def)

lemma of_int_le_pow2: "n \<le> 2 ^ k \<Longrightarrow> (of_int n :: rat) \<le> 2 ^ k"
  by (metis of_int_le_iff of_int_numeral of_int_power)

lemma pow2_le_of_int: "2 ^ k \<le> n \<Longrightarrow> (2::rat) ^ k \<le> of_int n"
  by (metis of_int_le_iff of_int_numeral of_int_power)

lemma powi_nat: "0 \<le> b \<Longrightarrow> (2::rat) powi b = 2 ^ nat b"
  by (simp add: power_int_def)

lemma bitlen_int_bounds:
  assumes "0 < n"
  shows "(2::rat) powi (bitlen n - 1) \<le> of_int n" and "of_int n + 1 \<le> (2::rat) powi (bitlen n)"
proof -
  note b = bitlen_bounds [OF assms]
  have b1: "1 \<le> bitlen n" using assms by (simp add: bitlen_alt_def)
  from b have "(2::rat) ^ nat (bitlen n - 1) \<le> of_int n"
    by (intro pow2_le_of_int) simp
  then show "(2::rat) powi (bitlen n - 1) \<le> of_int n"
    using b1 by (simp add: powi_nat)
  from b have "n + 1 \<le> 2 ^ nat (bitlen n)" by simp
  then have "(of_int (n + 1) :: rat) \<le> 2 ^ nat (bitlen n)"
    by (rule of_int_le_pow2)
  then show "of_int n + 1 \<le> (2::rat) powi (bitlen n)"
    using b1 by (simp add: powi_nat)
qed

lemma ilog2_bounds:
  assumes "0 < x"
  shows "2 powi (ilog2 x) \<le> x \<and> x < 2 powi (ilog2 x + 1)"
proof (cases "1 \<le> x")
  case True
  let ?n = "\<lfloor>x\<rfloor>"
  have n: "0 < ?n" using True by simp
  note b = bitlen_int_bounds [OF n]
  have "of_int ?n \<le> x" "x < of_int ?n + 1" by linarith+
  with b have "2 powi (bitlen ?n - 1) \<le> x" "x < 2 powi (bitlen ?n)" by linarith+
  then show ?thesis using True by (simp add: ilog2_def)
next
  case False
  let ?y = "1 / x"
  let ?n = "\<lceil>?y\<rceil> - 1"
  have y: "1 < ?y" using False assms by simp
  then have "2 \<le> \<lceil>?y\<rceil>" by linarith
  then have n: "0 < ?n" by simp
  note b = bitlen_int_bounds [OF n]
  have "of_int ?n < ?y" "?y \<le> of_int ?n + 1" by linarith+
  with b have ylo: "2 powi (bitlen ?n - 1) < ?y" and yhi: "?y \<le> 2 powi (bitlen ?n)"
    by linarith+
  have lo: "2 powi (- bitlen ?n) \<le> x"
  proof -
    have "1 \<le> x * 2 powi (bitlen ?n)"
      using yhi assms by (simp add: field_simps)
    then show ?thesis
      using powi_pos [of "bitlen ?n"] by (simp add: power_int_minus field_simps)
  qed
  have hi: "x < 2 powi (- bitlen ?n + 1)"
  proof -
    define P :: rat where "P = 2 powi (bitlen ?n - 1)"
    have P: "0 < P" by (simp add: P_def powi_pos)
    have "x * P < 1"
      using ylo assms by (simp add: P_def field_simps)
    then have "x < 1 / P" using P by (simp add: pos_less_divide_eq)
    moreover have "- bitlen ?n + 1 = - (bitlen ?n - 1)" by simp
    then have "(2::rat) powi (- bitlen ?n + 1) = 1 / P"
      by (simp only: P_def power_int_minus inverse_eq_divide)
    ultimately show ?thesis by simp
  qed
  show ?thesis using False lo hi by (simp add: ilog2_def)
qed

lemma powi_mono: "a \<le> b \<Longrightarrow> (2::rat) powi a \<le> 2 powi b"
  by (rule power_int_increasing) simp_all

lemma ilog2_unique:
  assumes "0 < x" "2 powi a \<le> x" "x < 2 powi (a + 1)"
  shows "ilog2 x = a"
proof (rule ccontr)
  assume ne: "ilog2 x \<noteq> a"
  note b = ilog2_bounds [OF assms(1)]
  show False
  proof (cases "ilog2 x < a")
    case True
    then have "(2::rat) powi (ilog2 x + 1) \<le> 2 powi a" by (intro powi_mono) simp
    with b assms show False by linarith
  next
    case False
    with ne have "(2::rat) powi (a + 1) \<le> 2 powi (ilog2 x)" by (intro powi_mono) simp
    with b assms show False by linarith
  qed
qed

lemma round_half_even_near: "\<bar>of_int (round_half_even x) - x\<bar> \<le> 1 / 2"
proof -
  have "of_int \<lfloor>x\<rfloor> \<le> x" "x < of_int \<lfloor>x\<rfloor> + 1" by linarith+
  then show ?thesis
    by (auto simp: round_half_even_def Let_def abs_le_iff)
qed

lemma round_half_even_eqI:
  assumes "\<bar>x - of_int m\<bar> < 1 / 2"
  shows "round_half_even x = m"
proof -
  from round_half_even_near [of x] assms
  have "\<bar>(of_int (round_half_even x) :: rat) - of_int m\<bar> < 1" by linarith
  then have "\<bar>(of_int (round_half_even x - m) :: rat)\<bar> < 1" by simp
  then have "\<bar>round_half_even x - m\<bar> < 1"
    by (metis of_int_abs of_int_less_iff of_int_1)
  then show ?thesis by linarith
qed

lemma fl_eqI:
  assumes "0 < x" "2 ^ 52 \<le> x / 2 powi e" "x / 2 powi e < 2 ^ 53"
    and "\<bar>x / 2 powi e - of_int m\<bar> < 1 / 2"
  shows "fl x = of_int m * 2 powi e"
proof -
  have p: "(2::rat) powi (e + 52) = 2 powi e * 2 ^ 52" "(2::rat) powi (e + 52 + 1) = 2 powi e * 2 ^ 53"
    by (simp_all add: power_int_add)
  have "2 powi (e + 52) \<le> x" "x < 2 powi (e + 52 + 1)"
    using assms(2,3) powi_pos [of e] unfolding p by (simp_all add: field_simps)
  from ilog2_unique [OF assms(1) this] have "ilog2 \<bar>x\<bar> - 52 = e"
    using assms(1) by simp
  then show ?thesis
    using assms(1) round_half_even_eqI [OF assms(4)] by (simp add: fl_def)
qed







lemma float_score_session:
  "float_score 50 1 80 2 = 20"
proof -
  have c: "fl (of_int 80 / 100) = (3602879701896397 / 4503599627370496 :: rat)"
    using fl_eqI [of "of_int 80 / 100" "- 53" 7205759403792794] by (simp add: power_int_minus)
  have a: "fl (of_int 50 * 1) = (50 :: rat)"
    using fl_eqI [of "of_int 50 * 1" "- 47" 7036874417766400] by (simp add: power_int_minus)
  have p: "fl (50 * (3602879701896397 / 4503599627370496)) = (40 :: rat)"
    using fl_eqI [of "50 * (3602879701896397 / 4503599627370496)" "- 47" 5629499534213120] by (simp add: power_int_minus)
  have q: "fl (40 / 2) = (20 :: rat)"
    using fl_eqI [of "40 / 2" "- 48" 5629499534213120] by (simp add: power_int_minus)
  show ?thesis by (simp only: float_score_def c a p q)
qed

lemma py_round_session:
  "py_round (20) 2 = 20"
proof -
  have d: "round_decimal (20) 2 = (20 :: rat)"
    using round_half_even_eqI [of "20 * 10 ^ 2" 2000] by (simp add: round_decimal_def)
  have s: "fl (20) = (20 :: rat)"
    using fl_eqI [of "20" "- 48" 5629499534213120] by (simp add: power_int_minus)
  show ?thesis by (simp only: py_round_def d s)
qed






lemma valid_inputs_score:
  assumes "valid_inputs n r i c e"
  shows "fdiv (of_int c) 100 = Inr (fl (of_int c / 100))"
    and "calculate_rice_score_float (of_int r) i (fl (of_int c / 100)) e = Inr (float_score r i c e)"
    and "n \<noteq> []"
  using assms
  by (auto simp: valid_inputs_def fdiv_def fmul_def calculate_rice_score_float_def float_score_def)

lemma add_project_eq:
  assumes "valid_inputs n r i c e" "load_user_projects u w = (Inr loaded, w1)"
  shows "add_project u n r i c e w =
     (case save_user_projects u (loaded @ [new_project n r i c e (float_score r i c e)]) w1 of
        (Inl x, w2) \<Rightarrow> (Inl x, w2)
      | (Inr True, w2) \<Rightarrow>
          (Inr True, w2\<lparr>shown := shown w2 @ [Added n (float_score r i c e)],
                        session_state := (session_state w2)(projects_key u \<mapsto>
                          loaded @ [new_project n r i c e (float_score r i c e)])\<rparr>)
      | (Inr False, w2) \<Rightarrow> (Inr False, w2\<lparr>shown := shown w2 @ [FailedToSave]\<rparr>))"
  using valid_inputs_score [OF assms(1)] assms(2)
  by (simp add: add_project_def seq_def lift_def Let_def st_show_def set_session_state_def return_def
      split: prod.splits sum.splits bool.splits)

lemma add_project_offline:
  assumes "valid_inputs n r i c e" "\<not> secrets_ok w"
  shows "add_project u n r i c e w =
     (Inr True, w\<lparr>shown := shown w @ [WarnNotConfigured, Added n (float_score r i c e)],
                  session_state := (session_state w)(projects_key u \<mapsto>
                    [new_project n r i c e (float_score r i c e)])\<rparr>)"
  using add_project_eq [OF assms(1) load_offline [OF assms(2)], of u] save_offline [OF assms(2)]
  by simp

section \<open>The add action\<close>






section \<open>The session without a store\<close>

text \<open>
  C9. With no credentials, saving a project reports success, and the run of the add
  action puts the new record in the session state and asks for a rerun. The rerun loads
  the user's projects again, gets the empty list, overwrites the session state with it and
  shows no project: the record added in the session is not returned by the next load.
  After a restart loading returns the empty list as well.
\<close>

lemma valid_inputs_session: "valid_inputs ''A'' 50 1 80 2"
  by (simp add: valid_inputs_def)

theorem session_only_project_is_lost:
  "fst (save_user_projects ''Rolf'' [new_project ''A'' 50 1 80 2 20] offline_world) = Inr True \<and>
   fst (main ''Rolf'' (AddClicked ''A'' 50 1 80 2) offline_world) = Inr Rerun \<and>
   session_state (snd (main ''Rolf'' (AddClicked ''A'' 50 1 80 2) offline_world)) ''projects_Rolf''
     = Some [new_project ''A'' 50 1 80 2 20] \<and>
   fst (load_user_projects ''Rolf'' (snd (main ''Rolf'' (AddClicked ''A'' 50 1 80 2) offline_world)))
     = Inr [] \<and>
   fst (interaction ''Rolf'' (AddClicked ''A'' 50 1 80 2) offline_world) = Inr (Shown []) \<and>
   session_state (snd (interaction ''Rolf'' (AddClicked ''A'' 50 1 80 2) offline_world))
     ''projects_Rolf'' = Some [] \<and>
   fst (load_user_projects ''Rolf''
         (restart (snd (interaction ''Rolf'' (AddClicked ''A'' 50 1 80 2) offline_world)))) = Inr []"
proof -
  have o: "\<not> secrets_ok offline_world"
    by (simp add: offline_world_def demo_world_def)
  have m: "main ''Rolf'' (AddClicked ''A'' 50 1 80 2) offline_world =
     (Inr Rerun,
      offline_world\<lparr>shown := [WarnNotConfigured, WarnNotConfigured, Added ''A'' 20],
                     session_state := [''projects_Rolf'' \<mapsto> [new_project ''A'' 50 1 80 2 20]]\<rparr>)"
    using o
    by (simp add: main_def seq_def init_gsheets_eq st_show_def return_def
        add_project_offline [OF valid_inputs_session] float_score_session projects_key_def
        offline_world_def demo_world_def)
  have n: "main ''Rolf'' NoClick w =
     (Inr (Shown []), w\<lparr>shown := shown w @ [WarnNotConfigured],
                          session_state := (session_state w)(''projects_Rolf'' \<mapsto> [])\<rparr>)"
    if "\<not> secrets_ok w" for w
    using that
    by (simp add: main_def seq_def init_gsheets_eq st_show_def return_def load_offline
        set_session_state_def projects_key_def)
  show ?thesis
    using o by (simp add: m n interaction_def seq_def save_offline load_offline restart_def)
qed

end
